theory Spec2Isabelle
  imports Complex_Main "HOL-Library.Product_Lexorder"
begin

section \<open>Configuration constants (src/config.py)\<close>

text \<open>
  Python floats are modelled by the real numbers: every product, quotient and comparison
  below is exact, and the rounding of IEEE doubles is not part of the model.
\<close>

definition INITIAL_CASH :: real where
  "INITIAL_CASH = 1"

definition COMMISSION_RATE :: real where
  "COMMISSION_RATE = 1 / 100"

definition BUY_COST_FACTOR :: real where
  "BUY_COST_FACTOR = 1 + COMMISSION_RATE"

definition SELL_REVENUE_FACTOR :: real where
  "SELL_REVENUE_FACTOR = 1 - COMMISSION_RATE"

definition VOLUME_CONSTRAINT_FACTOR :: real where
  "VOLUME_CONSTRAINT_FACTOR = 1 / 10"

section \<open>Python and pandas primitives used by the code\<close>

text \<open>\<open>int(x)\<close> on a float truncates towards zero; \<open>a // b\<close> on floats is the floor of the quotient.\<close>

definition py_int :: "real \<Rightarrow> int" where
  "py_int x = (if 0 \<le> x then \<lfloor>x\<rfloor> else \<lceil>x\<rceil>)"

definition py_floordiv :: "real \<Rightarrow> real \<Rightarrow> real" where
  "py_floordiv a b = of_int \<lfloor>a / b\<rfloor>"

text \<open>
  A float parameter that may be \<open>np.inf\<close> or \<open>-np.inf\<close> (\<open>max_past_pairs\<close>, whose finite
  values are integers, and \<open>min_profit\<close>).
\<close>

datatype 'a pyfloat = Minus_Inf | Finite 'a | Plus_Inf

fun ge_pyfloat :: "'a::linorder \<Rightarrow> 'a pyfloat \<Rightarrow> bool" where
  "ge_pyfloat x Minus_Inf = True"
| "ge_pyfloat x (Finite y) = (y \<le> x)"
| "ge_pyfloat x Plus_Inf = False"

fun minus_pyfloat :: "int pyfloat \<Rightarrow> int \<Rightarrow> int pyfloat" where
  "minus_pyfloat Minus_Inf k = Minus_Inf"
| "minus_pyfloat (Finite b) k = Finite (b - k)"
| "minus_pyfloat Plus_Inf k = Plus_Inf"

text \<open>\<open>np.argmax\<close>: the index of the first maximal entry.\<close>

fun argmax :: "real list \<Rightarrow> nat" where
  "argmax [] = 0"
| "argmax [x] = 0"
| "argmax (x # y # ys) = (let i = argmax (y # ys) in if (y # ys) ! i \<le> x then 0 else Suc i)"

subsection \<open>Decimal text of integers: \<open>str(n)\<close> and \<open>int(s)\<close>\<close>

definition digit_char :: "nat \<Rightarrow> char" where
  "digit_char n = ''0123456789'' ! n"

definition is_digit :: "char \<Rightarrow> bool" where
  "is_digit c \<longleftrightarrow> c \<in> set ''0123456789''"

definition digit_val :: "char \<Rightarrow> nat" where
  "digit_val c = of_char c - 48"

fun str_nat :: "nat \<Rightarrow> string" where
  "str_nat n = (if n < 10 then [digit_char n] else str_nat (n div 10) @ [digit_char (n mod 10)])"

declare str_nat.simps [simp del]

definition py_str :: "int \<Rightarrow> string" where
  "py_str i = (if i < 0 then CHR ''-'' # str_nat (nat (- i)) else str_nat (nat i))"

text \<open>
  \<open>int(s)\<close> on a string of 8-bit characters: surrounding white space is stripped, one sign is
  allowed, and the digits may be separated by single underscores. \<open>None\<close> is the ValueError.
\<close>

definition is_space :: "char \<Rightarrow> bool" where
  "is_space c \<longleftrightarrow> (of_char c :: nat) \<in> {9, 10, 11, 12, 13, 32, 133, 160}"

definition strip :: "string \<Rightarrow> string" where
  "strip s = dropWhile is_space (rev (dropWhile is_space (rev s)))"

fun py_digits :: "bool \<Rightarrow> nat \<Rightarrow> string \<Rightarrow> nat option" where
  "py_digits p acc [] = (if p then Some acc else None)"
| "py_digits p acc (c # cs) =
     (if is_digit c then py_digits True (acc * 10 + digit_val c) cs
      else if c = CHR ''_'' \<and> p then py_digits False acc cs
      else None)"

definition int_of_str :: "string \<Rightarrow> int option" where
  "int_of_str s =
     (case strip s of
        [] \<Rightarrow> None
      | c # cs \<Rightarrow>
          if c = CHR ''-'' then map_option (\<lambda>n. - int n) (py_digits False 0 cs)
          else if c = CHR ''+'' then map_option int (py_digits False 0 cs)
          else map_option int (py_digits False 0 (c # cs)))"

subsection \<open>Calendar dates and their text\<close>

text \<open>
  A date is (year, month, day); triples are ordered lexicographically, which is the
  chronological order. \<open>str(row['Date'])[:10]\<close> takes the first ten characters of the
  time stamp's text \<open>YYYY-MM-DD 00:00:00\<close>.
\<close>

type_synonym date = "nat \<times> nat \<times> nat"

definition zero_pad :: "nat \<Rightarrow> nat \<Rightarrow> string" where
  "zero_pad w n = replicate (w - length (str_nat n)) (CHR ''0'') @ str_nat n"

definition timestamp_str :: "date \<Rightarrow> string" where
  "timestamp_str d =
     (case d of (y, m, dd) \<Rightarrow>
        zero_pad 4 y @ ''-'' @ zero_pad 2 m @ ''-'' @ zero_pad 2 dd @ '' 00:00:00'')"

definition is_leap :: "nat \<Rightarrow> bool" where
  "is_leap y \<longleftrightarrow> y mod 4 = 0 \<and> (y mod 100 \<noteq> 0 \<or> y mod 400 = 0)"

definition days_in_month :: "nat \<Rightarrow> nat \<Rightarrow> nat" where
  "days_in_month y m =
     (if m = 2 then (if is_leap y then 29 else 28)
      else if m \<in> {4, 6, 9, 11} then 30 else 31)"

definition valid_date :: "date \<Rightarrow> bool" where
  "valid_date d =
     (case d of (y, m, dd) \<Rightarrow>
        1 \<le> y \<and> y \<le> 9999 \<and> 1 \<le> m \<and> m \<le> 12 \<and> 1 \<le> dd \<and> dd \<le> days_in_month y m)"

text \<open>
  \<open>datetime.strptime(s, '%Y-%m-%d').date()\<close>: four digits, a month \<open>1[0-2]|0[1-9]|[1-9]\<close>,
  a day \<open>3[01]|[12]\d|0[1-9]|[1-9]| [1-9]\<close>, separated by dashes, nothing left over, and
  the triple has to be a date of the calendar. \<open>None\<close> is the ValueError.
\<close>

fun split_dash :: "string \<Rightarrow> string list" where
  "split_dash [] = [[]]"
| "split_dash (c # cs) =
     (if c = CHR ''-'' then [] # split_dash cs
      else (case split_dash cs of [] \<Rightarrow> [[c]] | w # ws \<Rightarrow> (c # w) # ws))"

definition digits_val :: "string \<Rightarrow> nat" where
  "digits_val s = foldl (\<lambda>acc c. acc * 10 + digit_val c) 0 s"

definition month_field :: "string \<Rightarrow> nat option" where
  "month_field s =
     (if (length s = 1 \<or> length s = 2) \<and> list_all is_digit s
         \<and> 1 \<le> digits_val s \<and> digits_val s \<le> 12
      then Some (digits_val s) else None)"

definition day_field :: "string \<Rightarrow> nat option" where
  "day_field s =
     (if (length s = 1 \<or> length s = 2) \<and> list_all is_digit s
         \<and> 1 \<le> digits_val s \<and> digits_val s \<le> 31
      then Some (digits_val s)
      else (case s of
              [a, b] \<Rightarrow> if a = CHR '' '' \<and> is_digit b \<and> 1 \<le> digit_val b
                        then Some (digit_val b) else None
            | _ \<Rightarrow> None))"

definition strptime :: "string \<Rightarrow> date option" where
  "strptime s =
     (case split_dash s of
        [ys, ms, ds] \<Rightarrow>
          if length ys = 4 \<and> list_all is_digit ys then
            (case (month_field ms, day_field ds) of
               (Some m, Some dd) \<Rightarrow>
                 if valid_date (digits_val ys, m, dd) then Some (digits_val ys, m, dd) else None
             | _ \<Rightarrow> None)
          else None
      | _ \<Rightarrow> None)"

section \<open>Data model\<close>

text \<open>One row of the cleaned frame: a stock's bar for one day (src/data\_preprocessor.py).\<close>

record bar =
  Date :: date
  Stock :: string
  Open :: real
  High :: real
  Low :: real
  Close :: real
  Volume :: int
  Max_Quantity :: int

text \<open>\<open>df['Max_Quantity'] = (VOLUME_CONSTRAINT_FACTOR * df['Volume']).astype(int)\<close>\<close>

definition max_quantity :: "int \<Rightarrow> int" where
  "max_quantity volume = py_int (VOLUME_CONSTRAINT_FACTOR * of_int volume)"

text \<open>A move is the tuple (date, action, stock, quantity), all four of them strings.\<close>

type_synonym move = "string \<times> string \<times> string \<times> string"

section \<open>The strategies (src/strategies.py)\<close>

text \<open>
  The columns computed by both strategies. A frame is the list of its rows in index order;
  \<open>reset_index(drop=True)\<close> makes the labels the positions, so a label is an index of the list.
  In cleaned data every price is positive, so no divisor below is zero.
\<close>

definition affordable :: "real \<Rightarrow> bar \<Rightarrow> bool" where
  "affordable cash r \<longleftrightarrow>
     Open r * BUY_COST_FACTOR \<le> cash \<or> Low r * BUY_COST_FACTOR \<le> cash"

definition quantity_open :: "real \<Rightarrow> bar list \<Rightarrow> real list" where
  "quantity_open cash df =
     map (\<lambda>r. min (of_int (Max_Quantity r)) (py_floordiv cash (Open r * BUY_COST_FACTOR))) df"

definition profit_open :: "real \<Rightarrow> bar list \<Rightarrow> real list" where
  "profit_open cash df =
     map2 (\<lambda>q r. q * (High r * SELL_REVENUE_FACTOR - Open r * BUY_COST_FACTOR))
       (quantity_open cash df) df"

definition quantity_low :: "real \<Rightarrow> bar list \<Rightarrow> real list" where
  "quantity_low cash df =
     map (\<lambda>r. min (of_int (Max_Quantity r)) (py_floordiv cash (Low r * BUY_COST_FACTOR))) df"

definition profit_low :: "real \<Rightarrow> bar list \<Rightarrow> real list" where
  "profit_low cash df =
     map2 (\<lambda>q r. q * (Close r * SELL_REVENUE_FACTOR - Low r * BUY_COST_FACTOR))
       (quantity_low cash df) df"

definition max_profit_per_trade :: "real \<Rightarrow> bar list \<Rightarrow> real list" where
  "max_profit_per_trade cash df = map2 max (profit_open cash df) (profit_low cash df)"

definition best_profit_idx :: "real \<Rightarrow> bar list \<Rightarrow> nat" where
  "best_profit_idx cash df = argmax (max_profit_per_trade cash df)"

definition trade_date_str :: "bar \<Rightarrow> string" where
  "trade_date_str row = take 10 (timestamp_str (Date row))"

subsection \<open>\<open>greedy_trading_recursive\<close>\<close>

text \<open>The argument \<open>moves\<close> left out (\<open>None\<close>) is the call with the empty list.\<close>

function greedy_trading_recursive :: "bar list \<Rightarrow> real \<Rightarrow> move list \<Rightarrow> real \<times> move list" where
  "greedy_trading_recursive df0 cash moves =
     (let df = filter (affordable cash) df0 in
      if df = [] then (cash, moves)
      else
        let best_idx = best_profit_idx cash df;
            best_profit = max_profit_per_trade cash df ! best_idx
        in
        if best_profit \<le> 0 then (cash, moves)
        else
          let row = df ! best_idx;
              stock_symbol = Stock row
          in
          if profit_open cash df ! best_idx > profit_low cash df ! best_idx then
            let quantity = py_int (min (of_int (Max_Quantity row)) (cash / (Open row * BUY_COST_FACTOR)));
                cost = of_int quantity * Open row * BUY_COST_FACTOR;
                revenue = of_int quantity * High row * SELL_REVENUE_FACTOR
            in greedy_trading_recursive (filter (\<lambda>r. Date r > Date row) df)
                 (cash - cost + revenue)
                 (moves @ [(trade_date_str row, ''buy-open'', stock_symbol, py_str quantity),
                           (trade_date_str row, ''sell-high'', stock_symbol, py_str quantity)])
          else
            let quantity = py_int (min (of_int (Max_Quantity row)) (cash / (Low row * BUY_COST_FACTOR)));
                cost = of_int quantity * Low row * BUY_COST_FACTOR;
                revenue = of_int quantity * Close row * SELL_REVENUE_FACTOR
            in greedy_trading_recursive (filter (\<lambda>r. Date r > Date row) df)
                 (cash - cost + revenue)
                 (moves @ [(trade_date_str row, ''buy-low'', stock_symbol, py_str quantity),
                           (trade_date_str row, ''sell-close'', stock_symbol, py_str quantity)]))"
  by pat_completeness auto

termination greedy_trading_recursive
proof -
  have idx: "best_profit_idx cash df < length df" if "df \<noteq> []" for cash df
  proof -
    have arg: "argmax xs < length xs" if "xs \<noteq> []" for xs
      using that by (induction xs rule: argmax.induct) (auto simp: Let_def)
    have "length (max_profit_per_trade cash df) = length df"
      by (simp add: max_profit_per_trade_def profit_open_def profit_low_def
          quantity_open_def quantity_low_def)
    with that have "max_profit_per_trade cash df \<noteq> []" by auto
    from arg [OF this] \<open>length (max_profit_per_trade cash df) = length df\<close>
    show ?thesis by (simp add: best_profit_idx_def)
  qed
  have later: "length (filter (\<lambda>r. Date (filter (affordable cash) df0 !
                   best_profit_idx cash (filter (affordable cash) df0)) < Date r)
                 (filter (affordable cash) df0)) < length df0"
    if "filter (affordable cash) df0 \<noteq> []" for cash df0
  proof -
    let ?df = "filter (affordable cash) df0"
    have "?df ! best_profit_idx cash ?df \<in> set ?df"
      using idx [OF that] by (rule nth_mem)
    then have "length (filter (\<lambda>r. Date (?df ! best_profit_idx cash ?df) < Date r) ?df)
        < length ?df"
      by (rule length_filter_less) simp
    also have "\<dots> \<le> length df0" by (rule length_filter_le)
    finally show ?thesis .
  qed
  show ?thesis
    by (relation "measure (\<lambda>(df, cash, moves). length df)")
       (simp_all del: filter_filter add: later)
qed

subsection \<open>\<open>extra_greedy_trading_recursive\<close>\<close>

text \<open>
  \<open>df[df['Date'] <= row['Date']].drop(index=best_profit_idx)\<close>: the rows keep their labels
  through the date filter, and the row labelled \<open>best_profit_idx\<close> is dropped.
\<close>

definition past_rows :: "bar list \<Rightarrow> nat \<Rightarrow> bar list" where
  "past_rows df best_idx =
     map snd (filter (\<lambda>(i, r). i \<noteq> best_idx)
       (filter (\<lambda>(i, r). Date r \<le> Date (df ! best_idx)) (enumerate 0 df)))"

function extra_greedy_trading_recursive ::
  "bar list \<Rightarrow> real \<Rightarrow> move list \<Rightarrow> bool \<Rightarrow> int pyfloat \<Rightarrow> real pyfloat \<Rightarrow> real \<times> move list" where
  "extra_greedy_trading_recursive df0 cash moves past max_past_pairs min_profit =
     (if past \<and> ge_pyfloat (int (length moves div 2)) max_past_pairs then (cash, moves)
      else
        let df = filter (affordable cash) df0 in
        if df = [] then (cash, moves)
        else
          let best_idx = best_profit_idx cash df;
              best_profit = max_profit_per_trade cash df ! best_idx
          in
          if best_profit \<le> 0 then (cash, moves)
          else
            let row = df ! best_idx in
            if \<not> past \<or> ge_pyfloat best_profit min_profit then
              let stock_symbol = Stock row in
              if profit_open cash df ! best_idx > profit_low cash df ! best_idx then
                let quantity = py_int (min (of_int (Max_Quantity row)) (cash / (Open row * BUY_COST_FACTOR)));
                    cost = of_int quantity * Open row * BUY_COST_FACTOR;
                    revenue = of_int quantity * High row * SELL_REVENUE_FACTOR;
                    sub = extra_greedy_trading_recursive (past_rows df best_idx) (cash - cost) []
                            True (minus_pyfloat max_past_pairs 1) min_profit;
                    cash1 = fst sub + revenue;
                    moves1 = moves @ snd sub @
                       [(trade_date_str row, ''buy-open'', stock_symbol, py_str quantity),
                        (trade_date_str row, ''sell-high'', stock_symbol, py_str quantity)];
                    df1 = filter (\<lambda>r. Date r > Date row) df
                in
                if \<not> past then
                  extra_greedy_trading_recursive df1 cash1 moves1 False max_past_pairs min_profit
                else
                  extra_greedy_trading_recursive df1 cash1 moves1 True
                    (minus_pyfloat max_past_pairs (int (length moves1 div 2))) min_profit
              else
                let quantity = py_int (min (of_int (Max_Quantity row)) (cash / (Low row * BUY_COST_FACTOR)));
                    cost = of_int quantity * Low row * BUY_COST_FACTOR;
                    revenue = of_int quantity * Close row * SELL_REVENUE_FACTOR;
                    sub = extra_greedy_trading_recursive (past_rows df best_idx) (cash - cost) []
                            True (minus_pyfloat max_past_pairs 1) min_profit;
                    cash1 = fst sub + revenue;
                    moves1 = moves @ snd sub @
                       [(trade_date_str row, ''buy-low'', stock_symbol, py_str quantity),
                        (trade_date_str row, ''sell-close'', stock_symbol, py_str quantity)];
                    df1 = filter (\<lambda>r. Date r > Date row) df
                in
                if \<not> past then
                  extra_greedy_trading_recursive df1 cash1 moves1 False max_past_pairs min_profit
                else
                  extra_greedy_trading_recursive df1 cash1 moves1 True
                    (minus_pyfloat max_past_pairs (int (length moves1 div 2))) min_profit
            else (cash, moves))"
  by pat_completeness auto

termination extra_greedy_trading_recursive
proof -
  have idx: "best_profit_idx cash df < length df" if "df \<noteq> []" for cash df
  proof -
    have arg: "argmax xs < length xs" if "xs \<noteq> []" for xs
      using that by (induction xs rule: argmax.induct) (auto simp: Let_def)
    have "length (max_profit_per_trade cash df) = length df"
      by (simp add: max_profit_per_trade_def profit_open_def profit_low_def
          quantity_open_def quantity_low_def)
    with that have "max_profit_per_trade cash df \<noteq> []" by auto
    from arg [OF this] \<open>length (max_profit_per_trade cash df) = length df\<close>
    show ?thesis by (simp add: best_profit_idx_def)
  qed
  have later: "length (filter (\<lambda>r. Date (filter (affordable cash) df0 !
                   best_profit_idx cash (filter (affordable cash) df0)) < Date r)
                 (filter (affordable cash) df0)) < length df0"
    if "filter (affordable cash) df0 \<noteq> []" for cash df0
  proof -
    let ?df = "filter (affordable cash) df0"
    have "?df ! best_profit_idx cash ?df \<in> set ?df"
      using idx [OF that] by (rule nth_mem)
    then have "length (filter (\<lambda>r. Date (?df ! best_profit_idx cash ?df) < Date r) ?df)
        < length ?df"
      by (rule length_filter_less) simp
    also have "\<dots> \<le> length df0" by (rule length_filter_le)
    finally show ?thesis .
  qed
  have earlier: "length (past_rows (filter (affordable cash) df0)
                   (best_profit_idx cash (filter (affordable cash) df0))) < length df0"
    if "filter (affordable cash) df0 \<noteq> []" for cash df0
  proof -
    let ?df = "filter (affordable cash) df0"
    let ?i = "best_profit_idx cash ?df"
    let ?keep = "\<lambda>p. (case p of (i, r) \<Rightarrow> Date r \<le> Date (?df ! ?i))
                     \<and> (case p of (i, r) \<Rightarrow> i \<noteq> ?i)"
    have "(?i, ?df ! ?i) \<in> set (enumerate 0 ?df)"
      using idx [OF that] by (simp add: in_set_enumerate_eq)
    then have "length (filter ?keep (enumerate 0 ?df)) < length (enumerate 0 ?df)"
      by (rule length_filter_less) simp
    then have "length (past_rows ?df ?i) < length ?df"
      by (simp add: past_rows_def)
    also have "\<dots> \<le> length df0" by (rule length_filter_le)
    finally show ?thesis .
  qed
  show ?thesis
    by (relation "measure (\<lambda>(df, cash, moves, past, mpp, minp). length df)")
       (simp_all del: filter_filter add: later earlier)
qed

declare greedy_trading_recursive.simps [simp del]
declare extra_greedy_trading_recursive.simps [simp del]

section \<open>The trade a call selects\<close>

text \<open>
  Names for the locals of one call of either strategy, as functions of the call's frame and
  cash: the affordable rows, the selected row, its profit, the variant, the executed
  quantity, cost, revenue and moves, and the frames handed to the recursive calls. The
  strategies above do not use them; the lemmas \<open>greedy_unfold\<close> and \<open>extra_greedy_unfold\<close>
  show that they are what the two functions compute.
\<close>

definition candidates :: "real \<Rightarrow> bar list \<Rightarrow> bar list" where
  "candidates cash df0 = filter (affordable cash) df0"

definition best_row :: "real \<Rightarrow> bar list \<Rightarrow> bar" where
  "best_row cash df0 = candidates cash df0 ! best_profit_idx cash (candidates cash df0)"

definition best_profit :: "real \<Rightarrow> bar list \<Rightarrow> real" where
  "best_profit cash df0 =
     max_profit_per_trade cash (candidates cash df0) ! best_profit_idx cash (candidates cash df0)"

definition tradable :: "real \<Rightarrow> bar list \<Rightarrow> bool" where
  "tradable cash df0 \<longleftrightarrow> candidates cash df0 \<noteq> [] \<and> 0 < best_profit cash df0"

definition use_open :: "real \<Rightarrow> bar list \<Rightarrow> bool" where
  "use_open cash df0 \<longleftrightarrow>
     profit_open cash (candidates cash df0) ! best_profit_idx cash (candidates cash df0)
       > profit_low cash (candidates cash df0) ! best_profit_idx cash (candidates cash df0)"

definition buy_price :: "real \<Rightarrow> bar list \<Rightarrow> real" where
  "buy_price cash df0 =
     (if use_open cash df0 then Open (best_row cash df0) else Low (best_row cash df0))"

definition sell_price :: "real \<Rightarrow> bar list \<Rightarrow> real" where
  "sell_price cash df0 =
     (if use_open cash df0 then High (best_row cash df0) else Close (best_row cash df0))"

definition trade_quantity :: "real \<Rightarrow> bar list \<Rightarrow> int" where
  "trade_quantity cash df0 =
     py_int (min (of_int (Max_Quantity (best_row cash df0)))
                 (cash / (buy_price cash df0 * BUY_COST_FACTOR)))"

definition trade_cost :: "real \<Rightarrow> bar list \<Rightarrow> real" where
  "trade_cost cash df0 = of_int (trade_quantity cash df0) * buy_price cash df0 * BUY_COST_FACTOR"

definition trade_revenue :: "real \<Rightarrow> bar list \<Rightarrow> real" where
  "trade_revenue cash df0 =
     of_int (trade_quantity cash df0) * sell_price cash df0 * SELL_REVENUE_FACTOR"

definition trade_moves :: "real \<Rightarrow> bar list \<Rightarrow> move list" where
  "trade_moves cash df0 =
     [(trade_date_str (best_row cash df0), if use_open cash df0 then ''buy-open'' else ''buy-low'',
       Stock (best_row cash df0), py_str (trade_quantity cash df0)),
      (trade_date_str (best_row cash df0), if use_open cash df0 then ''sell-high'' else ''sell-close'',
       Stock (best_row cash df0), py_str (trade_quantity cash df0))]"

definition later_rows :: "real \<Rightarrow> bar list \<Rightarrow> bar list" where
  "later_rows cash df0 =
     filter (\<lambda>r. Date r > Date (best_row cash df0)) (candidates cash df0)"

definition earlier_rows :: "real \<Rightarrow> bar list \<Rightarrow> bar list" where
  "earlier_rows cash df0 =
     past_rows (candidates cash df0) (best_profit_idx cash (candidates cash df0))"

text \<open>
  A call of the lookback strategy executes its selected trade when the budget check, the two
  base cases and the profit threshold all let it through.
\<close>

definition executes ::
  "bar list \<Rightarrow> real \<Rightarrow> move list \<Rightarrow> bool \<Rightarrow> int pyfloat \<Rightarrow> real pyfloat \<Rightarrow> bool" where
  "executes df0 cash moves past max_past_pairs min_profit \<longleftrightarrow>
     \<not> (past \<and> ge_pyfloat (int (length moves div 2)) max_past_pairs)
     \<and> tradable cash df0
     \<and> (\<not> past \<or> ge_pyfloat (best_profit cash df0) min_profit)"

text \<open>
  The rows the strategies are given (data\_preprocessor.py, lines 49 to 67): positive prices
  and volume, the low and the high bounding the other prices, and the quantity limit derived
  from the volume. The date of a row is a time stamp, so a date of the calendar.
\<close>

definition clean_bar :: "bar \<Rightarrow> bool" where
  "clean_bar r \<longleftrightarrow>
     valid_date (Date r)
     \<and> 0 < Low r \<and> 0 < High r \<and> 0 < Open r \<and> 0 < Close r \<and> 0 < Volume r
     \<and> Low r \<le> min (Open r) (min (Close r) (High r))
     \<and> High r \<ge> max (Open r) (max (Close r) (Low r))
     \<and> Max_Quantity r = max_quantity (Volume r)"

text \<open>
  A move that trades a positive quantity, within its limit, of a row of the frame \<open>df\<close>.
\<close>

definition within_volume :: "bar list \<Rightarrow> move \<Rightarrow> bool" where
  "within_volume df m \<longleftrightarrow>
     (\<exists>r \<in> set df. \<exists>q. 0 < q \<and> q \<le> Max_Quantity r
        \<and> (\<exists>action \<in> {''buy-open'', ''sell-high'', ''buy-low'', ''sell-close''}.
              m = (trade_date_str r, action, Stock r, py_str q)))"




section \<open>The validator (src/validator.py)\<close>

text \<open>
  The state of the replay is the three locals of \<open>validate_moves\<close>. Each \<open>return -1.0\<close> inside
  the loop is an error value naming the check that failed; the function itself maps every
  one of them to the sentinel.
\<close>

record vstate =
  current_date :: "date option"
  daily_cash :: real
  daily_revenue :: real

datatype verror =
  Invalid_Format | Not_Chronological | No_Data | Volume_Violated | Insufficient_Cash

type_synonym stock_dict = "string \<Rightarrow> bar list option"

text \<open>Lines 49 to 62: the first move, a new day, an earlier day, the same day.\<close>

definition advance_date :: "real \<Rightarrow> vstate \<Rightarrow> date \<Rightarrow> verror + vstate" where
  "advance_date initial_cash st move_date =
     (case current_date st of
        None \<Rightarrow>
          Inr \<lparr>current_date = Some move_date, daily_cash = initial_cash, daily_revenue = 0\<rparr>
      | Some cd \<Rightarrow>
          if cd < move_date then
            Inr \<lparr>current_date = Some move_date, daily_cash = daily_cash st + daily_revenue st,
                 daily_revenue = 0\<rparr>
          else if cd > move_date then Inl Not_Chronological
          else Inr st)"

text \<open>Lines 64 to 75: the first row of the stock's frame on the day of the move.\<close>

definition find_row :: "stock_dict \<Rightarrow> string \<Rightarrow> date \<Rightarrow> verror + bar" where
  "find_row sd stock move_date =
     (case sd stock of
        None \<Rightarrow> Inl No_Data
      | Some df_stock \<Rightarrow>
          (case filter (\<lambda>r. Date r = move_date) df_stock of
             [] \<Rightarrow> Inl No_Data
           | row # _ \<Rightarrow> Inr row))"

text \<open>Lines 77 to 102: the volume check and the trade.\<close>

definition process_trade :: "vstate \<Rightarrow> bar \<Rightarrow> string \<Rightarrow> int \<Rightarrow> verror + vstate" where
  "process_trade st row action quantity =
     (if quantity > Max_Quantity row then Inl Volume_Violated
      else if action = ''buy-low'' then
        (let cost = Low row * BUY_COST_FACTOR * of_int quantity in
         if daily_cash st < cost then Inl Insufficient_Cash
         else Inr (st\<lparr>daily_cash := daily_cash st - cost\<rparr>))
      else if action = ''buy-open'' then
        (let cost = Open row * BUY_COST_FACTOR * of_int quantity in
         if daily_cash st < cost then Inl Insufficient_Cash
         else Inr (st\<lparr>daily_cash := daily_cash st - cost\<rparr>))
      else if action = ''sell-close'' then
        (let revenue = Close row * SELL_REVENUE_FACTOR * of_int quantity in
         Inr (st\<lparr>daily_revenue := daily_revenue st + revenue\<rparr>))
      else if action = ''sell-high'' then
        (let revenue = High row * SELL_REVENUE_FACTOR * of_int quantity in
         Inr (st\<lparr>daily_revenue := daily_revenue st + revenue\<rparr>))
      else Inr st)"

text \<open>One iteration of the loop over the moves.\<close>

definition validate_move :: "real \<Rightarrow> stock_dict \<Rightarrow> vstate \<Rightarrow> move \<Rightarrow> verror + vstate" where
  "validate_move initial_cash sd st move =
     (case move of (date_str, action, stock, quantity_str) \<Rightarrow>
        (case (strptime date_str, int_of_str quantity_str) of
           (Some move_date, Some quantity) \<Rightarrow>
             (case advance_date initial_cash st move_date of
                Inl e \<Rightarrow> Inl e
              | Inr st1 \<Rightarrow>
                  (case find_row sd stock move_date of
                     Inl e \<Rightarrow> Inl e
                   | Inr row \<Rightarrow> process_trade st1 row action quantity))
         | _ \<Rightarrow> Inl Invalid_Format))"

fun validate_loop :: "real \<Rightarrow> stock_dict \<Rightarrow> vstate \<Rightarrow> move list \<Rightarrow> verror + vstate" where
  "validate_loop initial_cash sd st [] = Inr st"
| "validate_loop initial_cash sd st (move # moves) =
     (case validate_move initial_cash sd st move of
        Inl e \<Rightarrow> Inl e
      | Inr st1 \<Rightarrow> validate_loop initial_cash sd st1 moves)"

definition initial_vstate :: vstate where
  "initial_vstate = \<lparr>current_date = None, daily_cash = 0, daily_revenue = 0\<rparr>"

definition validate_moves :: "real \<Rightarrow> move list \<Rightarrow> stock_dict \<Rightarrow> real" where
  "validate_moves initial_cash moves sd =
     (case validate_loop initial_cash sd initial_vstate moves of
        Inl e \<Rightarrow> - 1
      | Inr st \<Rightarrow> daily_cash st + daily_revenue st)"

section \<open>The summary check (main.py, line 103)\<close>

definition validation_success :: "real \<Rightarrow> real \<Rightarrow> bool" where
  "validation_success final_cash validated_cash \<longleftrightarrow>
     validated_cash \<noteq> - 1 \<and> \<bar>final_cash - validated_cash\<bar> < 1 / 100"

section \<open>The end-to-end scenario of the specification\<close>

definition bar_X :: bar where
  "bar_X = \<lparr>Date = (2020, 1, 1), Stock = ''X'', Open = 10, High = 12, Low = 9, Close = 11,
            Volume = 1000, Max_Quantity = max_quantity 1000\<rparr>"

definition dict_X :: stock_dict where
  "dict_X = (\<lambda>s. if s = ''X'' then Some [bar_X] else None)"





section \<open>Evaluating the scenario\<close>

lemma greedy_bar_X:
  "greedy_trading_recursive [bar_X] 1000 [] =
     (1180, [(''2020-01-01'', ''buy-low'', ''X'', ''100''),
             (''2020-01-01'', ''sell-close'', ''X'', ''100'')])"
  by code_simp

lemma validate_moves_X:
  "validate_moves 1000 [(''2020-01-01'', ''buy-low'', ''X'', ''100''),
                        (''2020-01-01'', ''sell-close'', ''X'', ''100'')] dict_X = 1180"
  by code_simp

lemma profit_open_bar_X: "profit_open 1000 [bar_X] = [17622 / 100]"
  by code_simp

lemma profit_low_bar_X: "profit_low 1000 [bar_X] = [180]"
  by code_simp

text \<open>
  C2, as the specification computes it: the profit of buying at the open and selling at the
  high would be 178. The code caps the quantity by what the cash affords, 99 shares at 10.10,
  so the column holds 176.22.
\<close>

theorem C2_profit_open_is_not_178: "profit_open 1000 [bar_X] \<noteq> [178]"
  by (simp add: profit_open_bar_X)

text \<open>
  C2, amended: on the single bar (2020-01-01, Open 10, High 12, Low 9, Close 11, Volume 1000)
  with cash 1000, \<open>Max_Quantity\<close> is 100, the profit of buy-low then sell-close is 180, the
  profit of buy-open then sell-high is 176.22, the strategy emits the buy-low and sell-close
  moves for 100 shares and returns 1180, and the validator replaying them returns 1180.
\<close>

theorem C2_end_to_end_scenario:
  "Max_Quantity bar_X = 100
   \<and> profit_low 1000 [bar_X] = [180]
   \<and> profit_open 1000 [bar_X] = [17622 / 100]
   \<and> greedy_trading_recursive [bar_X] 1000 [] =
       (1180, [(''2020-01-01'', ''buy-low'', ''X'', ''100''),
               (''2020-01-01'', ''sell-close'', ''X'', ''100'')])
   \<and> validate_moves 1000 [(''2020-01-01'', ''buy-low'', ''X'', ''100''),
                           (''2020-01-01'', ''sell-close'', ''X'', ''100'')] dict_X = 1180"
proof -
  have "Max_Quantity bar_X = 100"
    by (simp add: bar_X_def max_quantity_def py_int_def VOLUME_CONSTRAINT_FACTOR_def)
  then show ?thesis
    by (simp only: greedy_bar_X validate_moves_X profit_open_bar_X profit_low_bar_X simp_thms)
qed

section \<open>The selected trade: basic facts\<close>

lemma argmax_less: "xs \<noteq> [] \<Longrightarrow> argmax xs < length xs"
  by (induction xs rule: argmax.induct) (auto simp: Let_def)

lemma argmax_greatest: "i < length xs \<Longrightarrow> xs ! i \<le> xs ! argmax xs"
proof (induction xs arbitrary: i rule: argmax.induct)
  case 1 then show ?case by simp
next
  case (2 x) then show ?case by simp
next
  case (3 x y ys)
  show ?case
  proof (cases i)
    case 0
    then show ?thesis by (auto simp: Let_def)
  next
    case (Suc j)
    with 3 have "(y # ys) ! j \<le> (y # ys) ! argmax (y # ys)" by simp
    with Suc show ?thesis by (auto simp: Let_def)
  qed
qed

lemma length_max_profit_per_trade [simp]:
  "length (max_profit_per_trade cash df) = length df"
  by (simp add: max_profit_per_trade_def profit_open_def profit_low_def quantity_open_def
      quantity_low_def)

lemma best_profit_idx_less: "df \<noteq> [] \<Longrightarrow> best_profit_idx cash df < length df"
proof -
  assume "df \<noteq> []"
  then have "max_profit_per_trade cash df \<noteq> []"
    by (metis length_max_profit_per_trade length_0_conv)
  from argmax_less [OF this] show ?thesis by (simp add: best_profit_idx_def)
qed

lemma best_row_in_candidates:
  "candidates cash df0 \<noteq> [] \<Longrightarrow> best_row cash df0 \<in> set (candidates cash df0)"
  unfolding best_row_def by (rule nth_mem) (rule best_profit_idx_less)

lemma best_row_in_frame: "tradable cash df0 \<Longrightarrow> best_row cash df0 \<in> set df0"
  using best_row_in_candidates [of cash df0] by (auto simp: tradable_def candidates_def)

lemma best_row_affordable: "tradable cash df0 \<Longrightarrow> affordable cash (best_row cash df0)"
  using best_row_in_candidates [of cash df0] by (auto simp: tradable_def candidates_def)

lemma later_rows_shorter: "tradable cash df0 \<Longrightarrow> length (later_rows cash df0) < length df0"
proof -
  assume "tradable cash df0"
  then have "best_row cash df0 \<in> set (candidates cash df0)"
    by (simp add: tradable_def best_row_in_candidates)
  then have "length (later_rows cash df0) < length (candidates cash df0)"
    unfolding later_rows_def by (rule length_filter_less) simp
  also have "\<dots> \<le> length df0" by (simp add: candidates_def)
  finally show ?thesis .
qed

lemma earlier_rows_shorter: "tradable cash df0 \<Longrightarrow> length (earlier_rows cash df0) < length df0"
proof -
  assume "tradable cash df0"
  then have ne: "candidates cash df0 \<noteq> []" by (simp add: tradable_def)
  let ?df = "candidates cash df0"
  let ?i = "best_profit_idx cash ?df"
  let ?keep = "\<lambda>p. (case p of (i, r) \<Rightarrow> Date r \<le> Date (?df ! ?i))
                   \<and> (case p of (i, r) \<Rightarrow> i \<noteq> ?i)"
  have "(?i, ?df ! ?i) \<in> set (enumerate 0 ?df)"
    using best_profit_idx_less [OF ne] by (simp add: in_set_enumerate_eq)
  then have "length (filter ?keep (enumerate 0 ?df)) < length (enumerate 0 ?df)"
    by (rule length_filter_less) simp
  then have "length (earlier_rows cash df0) < length ?df"
    by (simp add: earlier_rows_def past_rows_def)
  also have "\<dots> \<le> length df0" by (simp add: candidates_def)
  finally show ?thesis .
qed

lemma set_past_rows: "set (past_rows df i) \<subseteq> {r \<in> set df. Date r \<le> Date (df ! i)}"
  by (auto simp: past_rows_def in_set_enumerate_eq)

lemma set_earlier_rows:
  "set (earlier_rows cash df0) \<subseteq> {r \<in> set df0. Date r \<le> Date (best_row cash df0)}"
  using set_past_rows [of "candidates cash df0" "best_profit_idx cash (candidates cash df0)"]
  by (auto simp: earlier_rows_def best_row_def candidates_def)

lemma set_later_rows:
  "set (later_rows cash df0) \<subseteq> {r \<in> set df0. Date (best_row cash df0) < Date r}"
  by (auto simp: later_rows_def candidates_def)

lemma greedy_unfold:
  "greedy_trading_recursive df0 cash moves =
     (if tradable cash df0 then
        greedy_trading_recursive (later_rows cash df0)
          (cash - trade_cost cash df0 + trade_revenue cash df0) (moves @ trade_moves cash df0)
      else (cash, moves))"
  by (subst greedy_trading_recursive.simps)
     (simp add: Let_def tradable_def candidates_def best_profit_def use_open_def best_row_def
       buy_price_def sell_price_def trade_quantity_def trade_cost_def trade_revenue_def
       trade_moves_def later_rows_def not_less)

lemma extra_greedy_unfold:
  "extra_greedy_trading_recursive df0 cash moves past max_past_pairs min_profit =
     (if past \<and> ge_pyfloat (int (length moves div 2)) max_past_pairs then (cash, moves)
      else if \<not> tradable cash df0 then (cash, moves)
      else if past \<and> \<not> ge_pyfloat (best_profit cash df0) min_profit then (cash, moves)
      else
        let sub = extra_greedy_trading_recursive (earlier_rows cash df0)
                    (cash - trade_cost cash df0) [] True (minus_pyfloat max_past_pairs 1) min_profit;
            cash1 = fst sub + trade_revenue cash df0;
            moves1 = moves @ snd sub @ trade_moves cash df0
        in extra_greedy_trading_recursive (later_rows cash df0) cash1 moves1 past
             (if past then minus_pyfloat max_past_pairs (int (length moves1 div 2))
              else max_past_pairs) min_profit)"
  by (subst extra_greedy_trading_recursive.simps)
     (simp add: Let_def tradable_def candidates_def best_profit_def use_open_def best_row_def
       buy_price_def sell_price_def trade_quantity_def trade_cost_def trade_revenue_def
       trade_moves_def later_rows_def earlier_rows_def not_less)

section \<open>The corrective budget\<close>

lemma corrective_budget_spent:
  "ge_pyfloat (int (length moves div 2)) max_past_pairs \<Longrightarrow>
   extra_greedy_trading_recursive df cash moves True max_past_pairs min_profit = (cash, moves)"
  by (subst extra_greedy_unfold) simp

lemma extra_greedy_zero_budget:
  "extra_greedy_trading_recursive df cash moves False (Finite 0) min_profit =
   greedy_trading_recursive df cash moves"
proof (induction "length df" arbitrary: df cash moves rule: less_induct)
  case less
  show ?case
  proof (cases "tradable cash df")
    case False
    then show ?thesis
      by (subst extra_greedy_unfold, subst greedy_unfold) simp
  next
    case True
    have sub: "extra_greedy_trading_recursive (earlier_rows cash df) (cash - trade_cost cash df) []
        True (Finite (- 1)) min_profit = (cash - trade_cost cash df, [])"
      by (rule corrective_budget_spent) simp
    have "extra_greedy_trading_recursive df cash moves False (Finite 0) min_profit =
        extra_greedy_trading_recursive (later_rows cash df)
          (cash - trade_cost cash df + trade_revenue cash df) (moves @ trade_moves cash df)
          False (Finite 0) min_profit"
      by (subst extra_greedy_unfold) (simp add: True sub Let_def)
    also have "\<dots> = greedy_trading_recursive (later_rows cash df)
          (cash - trade_cost cash df + trade_revenue cash df) (moves @ trade_moves cash df)"
      by (rule less) (rule later_rows_shorter [OF True])
    also have "\<dots> = greedy_trading_recursive df cash moves"
      by (subst (2) greedy_unfold) (simp add: True)
    finally show ?thesis .
  qed
qed

text \<open>
  C5: with \<open>max_past_pairs = 0\<close> every corrective sub-search is launched with the budget
  \<open>0 - 1\<close> and the empty move list, and returns at once with no trade; the result of the
  lookback strategy is the result of the simple greedy strategy.
\<close>

theorem C5_zero_budget_is_simple_greedy:
  "extra_greedy_trading_recursive sub_df sub_cash [] True (minus_pyfloat (Finite 0) 1) min_profit
     = (sub_cash, [])
   \<and> extra_greedy_trading_recursive df cash moves False (Finite 0) min_profit
     = greedy_trading_recursive df cash moves"
  by (simp add: corrective_budget_spent extra_greedy_zero_budget)

theorem C5_zero_budget_witness:
  "extra_greedy_trading_recursive [bar_X] 1000 [] True (minus_pyfloat (Finite 0) 1) Minus_Inf
     = (1000, [])
   \<and> extra_greedy_trading_recursive [bar_X] 1000 [] False (Finite 0) Minus_Inf
     = (1180, [(''2020-01-01'', ''buy-low'', ''X'', ''100''),
               (''2020-01-01'', ''sell-close'', ''X'', ''100'')])"
  using C5_zero_budget_is_simple_greedy [of "[bar_X]" 1000 Minus_Inf "[bar_X]" 1000 "[]"]
  by (simp only: greedy_bar_X)

lemma length_trade_moves [simp]: "length (trade_moves cash df) = 2"
  by (simp add: trade_moves_def)

lemma extra_greedy_stop:
  "\<not> executes df cash moves past max_past_pairs min_profit \<Longrightarrow>
   extra_greedy_trading_recursive df cash moves past max_past_pairs min_profit = (cash, moves)"
  by (subst extra_greedy_unfold) (auto simp: executes_def)

lemma extra_greedy_step:
  "executes df cash moves past max_past_pairs min_profit \<Longrightarrow>
   extra_greedy_trading_recursive df cash moves past max_past_pairs min_profit =
     (let sub = extra_greedy_trading_recursive (earlier_rows cash df)
                  (cash - trade_cost cash df) [] True (minus_pyfloat max_past_pairs 1) min_profit;
          cash1 = fst sub + trade_revenue cash df;
          moves1 = moves @ snd sub @ trade_moves cash df
      in extra_greedy_trading_recursive (later_rows cash df) cash1 moves1 past
           (if past then minus_pyfloat max_past_pairs (int (length moves1 div 2))
            else max_past_pairs) min_profit)"
  by (subst extra_greedy_unfold) (auto simp: executes_def)

text \<open>
  Every call appends an even number of moves; a corrective call appends at most
  \<open>max_past_pairs\<close> pairs, and none when that budget is not positive.
\<close>

lemma extra_greedy_pairs:
  "\<exists>new k. snd (extra_greedy_trading_recursive df cash moves past max_past_pairs min_profit)
             = moves @ new
     \<and> length new = 2 * k
     \<and> (past \<longrightarrow> (\<forall>b. max_past_pairs = Finite b \<longrightarrow> int k \<le> max 0 b))"
proof (induction "length df" arbitrary: df cash moves past max_past_pairs min_profit
    rule: less_induct)
  case less
  show ?case
  proof (cases "executes df cash moves past max_past_pairs min_profit")
    case False
    then show ?thesis by (simp add: extra_greedy_stop)
  next
    case True
    then have tr: "tradable cash df" by (simp add: executes_def)
    let ?sub = "extra_greedy_trading_recursive (earlier_rows cash df)
        (cash - trade_cost cash df) [] True (minus_pyfloat max_past_pairs 1) min_profit"
    let ?moves1 = "moves @ snd ?sub @ trade_moves cash df"
    let ?budget = "if past then minus_pyfloat max_past_pairs (int (length ?moves1 div 2))
        else max_past_pairs"
    let ?rest = "extra_greedy_trading_recursive (later_rows cash df)
        (fst ?sub + trade_revenue cash df) ?moves1 past ?budget min_profit"
    have eq: "extra_greedy_trading_recursive df cash moves past max_past_pairs min_profit = ?rest"
      using True by (simp add: extra_greedy_step Let_def)
    from less [OF earlier_rows_shorter [OF tr], of "cash - trade_cost cash df" "[]" True
        "minus_pyfloat max_past_pairs 1" min_profit]
    obtain new1 k1 where sub: "snd ?sub = new1" "length new1 = 2 * k1"
      and b1: "\<And>b. minus_pyfloat max_past_pairs 1 = Finite b \<Longrightarrow> int k1 \<le> max 0 b"
      by auto
    from less [OF later_rows_shorter [OF tr], of "fst ?sub + trade_revenue cash df" ?moves1
        past ?budget min_profit]
    obtain new2 k2 where rest: "snd ?rest = ?moves1 @ new2" "length new2 = 2 * k2"
      and b2: "\<And>b. past \<Longrightarrow> ?budget = Finite b \<Longrightarrow> int k2 \<le> max 0 b"
      by blast
    let ?new = "new1 @ trade_moves cash df @ new2"
    have 1: "snd (extra_greedy_trading_recursive df cash moves past max_past_pairs min_profit)
        = moves @ ?new"
      using eq rest(1) sub(1) by simp
    have 2: "length ?new = 2 * (k1 + 1 + k2)"
      using sub(2) rest(2) by simp
    have 3: "int (k1 + 1 + k2) \<le> max 0 b" if past: past and fin: "max_past_pairs = Finite b" for b
    proof -
      have m: "int (length moves div 2) < b"
        using True past fin by (simp add: executes_def)
      have k1: "int k1 \<le> b - 1"
        using b1 [of "b - 1"] fin m by simp
      have len: "length ?moves1 div 2 = length moves div 2 + k1 + 1"
        using sub by simp
      have "int k2 \<le> max 0 (b - int (length ?moves1 div 2))"
        using b2 [of "b - int (length ?moves1 div 2)"] past fin by simp
      with len k1 m show ?thesis by simp
    qed
    from 1 2 3 show ?thesis by blast
  qed
qed

text \<open>
  C6: a corrective call whose move list already holds \<open>max_past_pairs\<close> pairs returns its
  cash and moves unchanged; and a corrective branch launched with the empty move list and a
  budget \<open>b \<ge> 0\<close> returns at most \<open>b\<close> pairs, those of its nested corrective branches
  included. (With a budget below zero the first part applies: the branch returns no pair.)
\<close>

theorem C6_corrective_budget_is_a_ceiling:
  "(ge_pyfloat (int (length moves div 2)) max_past_pairs \<longrightarrow>
      extra_greedy_trading_recursive df cash moves True max_past_pairs min_profit = (cash, moves))
   \<and> (0 \<le> b \<longrightarrow>
      int (length (snd (extra_greedy_trading_recursive df cash [] True (Finite b) min_profit)) div 2)
        \<le> b)"
proof -
  have "int (length (snd (extra_greedy_trading_recursive df cash [] True (Finite b) min_profit))
      div 2) \<le> b" if "0 \<le> b"
  proof -
    from extra_greedy_pairs [of df cash "[]" True "Finite b" min_profit]
    obtain new k where "snd (extra_greedy_trading_recursive df cash [] True (Finite b) min_profit)
        = new" "length new = 2 * k" "int k \<le> max 0 b"
      by auto
    with that show ?thesis by simp
  qed
  then show ?thesis by (simp add: corrective_budget_spent)
qed


theorem C6_corrective_budget_witness:
  "extra_greedy_trading_recursive [bar_X] 1000 [] True (Finite 0) Minus_Inf = (1000, [])
   \<and> int (length (snd (extra_greedy_trading_recursive [bar_X] 1000 [] True (Finite 1) Minus_Inf))
        div 2) \<le> 1"
  using C6_corrective_budget_is_a_ceiling [where moves = "[]" and max_past_pairs = "Finite 0"
      and df = "[bar_X]" and cash = 1000 and min_profit = Minus_Inf and b = 1]
  by simp

section \<open>The profit threshold and the empty move list\<close>

lemma best_profit_greatest:
  "p \<in> set (max_profit_per_trade cash (candidates cash df)) \<Longrightarrow> p \<le> best_profit cash df"
  by (auto simp: in_set_conv_nth best_profit_def best_profit_idx_def
      intro: argmax_greatest simp del: length_max_profit_per_trade)

lemma extra_greedy_appends:
  "\<exists>new. snd (extra_greedy_trading_recursive df cash moves past max_past_pairs min_profit)
     = moves @ new"
  using extra_greedy_pairs [of df cash moves past max_past_pairs min_profit] by blast

lemma extra_greedy_executed:
  assumes "executes df cash moves past max_past_pairs min_profit"
  shows "\<exists>rest. snd (extra_greedy_trading_recursive df cash moves past max_past_pairs min_profit)
     = moves @ snd (extra_greedy_trading_recursive (earlier_rows cash df)
                      (cash - trade_cost cash df) [] True (minus_pyfloat max_past_pairs 1)
                      min_profit)
         @ trade_moves cash df @ rest"
proof -
  let ?sub = "extra_greedy_trading_recursive (earlier_rows cash df)
      (cash - trade_cost cash df) [] True (minus_pyfloat max_past_pairs 1) min_profit"
  let ?moves1 = "moves @ snd ?sub @ trade_moves cash df"
  let ?budget = "if past then minus_pyfloat max_past_pairs (int (length ?moves1 div 2))
      else max_past_pairs"
  from extra_greedy_appends [of "later_rows cash df" "fst ?sub + trade_revenue cash df" ?moves1
      past ?budget min_profit]
  obtain rest where "snd (extra_greedy_trading_recursive (later_rows cash df)
      (fst ?sub + trade_revenue cash df) ?moves1 past ?budget min_profit) = ?moves1 @ rest"
    by blast
  with assms show ?thesis by (simp add: extra_greedy_step Let_def)
qed

lemma extra_greedy_no_moves:
  assumes "snd (extra_greedy_trading_recursive df cash moves past max_past_pairs min_profit) = moves"
  shows "extra_greedy_trading_recursive df cash moves past max_past_pairs min_profit = (cash, moves)"
proof (cases "executes df cash moves past max_past_pairs min_profit")
  case True
  from extra_greedy_executed [OF True] assms show ?thesis
    by (auto simp: trade_moves_def)
next
  case False
  then show ?thesis by (rule extra_greedy_stop)
qed

text \<open>
  C7: in a corrective call the selected candidate is the best of all affordable rows; a trade
  is appended only if that best profit is at least \<open>min_profit\<close>; if it is below, the call
  returns its cash and move list unchanged; and if it is admitted (the budget is not spent
  and the profit is positive), the selected trade's two moves are appended after those of
  its own corrective sub-search.
\<close>

theorem C7_corrective_threshold:
  "(\<forall>p \<in> set (max_profit_per_trade cash (candidates cash df)). p \<le> best_profit cash df)
   \<and> (snd (extra_greedy_trading_recursive df cash moves True max_past_pairs min_profit) \<noteq> moves
        \<longrightarrow> ge_pyfloat (best_profit cash df) min_profit)
   \<and> (\<not> ge_pyfloat (best_profit cash df) min_profit
        \<longrightarrow> extra_greedy_trading_recursive df cash moves True max_past_pairs min_profit
              = (cash, moves))
   \<and> (\<not> ge_pyfloat (int (length moves div 2)) max_past_pairs \<and> tradable cash df
        \<and> ge_pyfloat (best_profit cash df) min_profit
        \<longrightarrow> (\<exists>rest. snd (extra_greedy_trading_recursive df cash moves True max_past_pairs min_profit)
              = moves @ snd (extra_greedy_trading_recursive (earlier_rows cash df)
                               (cash - trade_cost cash df) [] True
                               (minus_pyfloat max_past_pairs 1) min_profit)
                  @ trade_moves cash df @ rest))"
proof (intro conjI impI ballI)
  fix p assume "p \<in> set (max_profit_per_trade cash (candidates cash df))"
  then show "p \<le> best_profit cash df" by (rule best_profit_greatest)
next
  assume "snd (extra_greedy_trading_recursive df cash moves True max_past_pairs min_profit) \<noteq> moves"
  then have "executes df cash moves True max_past_pairs min_profit"
    using extra_greedy_stop [of df cash moves True max_past_pairs min_profit]
    by (cases "executes df cash moves True max_past_pairs min_profit") simp_all
  then show "ge_pyfloat (best_profit cash df) min_profit" by (simp add: executes_def)
next
  assume "\<not> ge_pyfloat (best_profit cash df) min_profit"
  then have "\<not> executes df cash moves True max_past_pairs min_profit" by (simp add: executes_def)
  then show "extra_greedy_trading_recursive df cash moves True max_past_pairs min_profit
      = (cash, moves)"
    by (rule extra_greedy_stop)
next
  assume "\<not> ge_pyfloat (int (length moves div 2)) max_past_pairs \<and> tradable cash df
      \<and> ge_pyfloat (best_profit cash df) min_profit"
  then have "executes df cash moves True max_past_pairs min_profit" by (simp add: executes_def)
  then show "\<exists>rest. snd (extra_greedy_trading_recursive df cash moves True max_past_pairs min_profit)
      = moves @ snd (extra_greedy_trading_recursive (earlier_rows cash df)
                       (cash - trade_cost cash df) [] True
                       (minus_pyfloat max_past_pairs 1) min_profit)
          @ trade_moves cash df @ rest"
    by (rule extra_greedy_executed)
qed

lemma best_profit_bar_X: "best_profit 1000 [bar_X] = 180"
  by code_simp

theorem C7_corrective_threshold_witness:
  "best_profit 1000 [bar_X] = 180
   \<and> extra_greedy_trading_recursive [bar_X] 1000 [] True (Finite 5) (Finite 200) = (1000, [])"
  using C7_corrective_threshold [where cash = 1000 and df = "[bar_X]" and moves = "[]"
      and max_past_pairs = "Finite 5" and min_profit = "Finite 200"]
  by (simp add: best_profit_bar_X)

text \<open>
  C10: on the empty move list the loop never sets \<open>daily_cash\<close>, so the validator returns 0
  whatever the initial cash is. A strategy call that returns no moves returns its cash
  unchanged, so for an initial cash of at least 0.01 the summary check of main.py fails.
\<close>

theorem C10_empty_move_list:
  "validate_moves initial_cash [] sd = 0
   \<and> (1 / 100 \<le> initial_cash \<longrightarrow>
        \<not> validation_success initial_cash (validate_moves initial_cash [] sd))
   \<and> (1 / 100 \<le> initial_cash
        \<and> greedy_trading_recursive df initial_cash [] = (final_cash, []) \<longrightarrow>
        final_cash = initial_cash
        \<and> \<not> validation_success final_cash (validate_moves initial_cash [] sd))
   \<and> (1 / 100 \<le> initial_cash
        \<and> extra_greedy_trading_recursive df initial_cash [] False max_past_pairs min_profit
            = (final_cash, []) \<longrightarrow>
        final_cash = initial_cash
        \<and> \<not> validation_success final_cash (validate_moves initial_cash [] sd))"
proof -
  have v: "validate_moves initial_cash [] sd = 0"
    by (simp add: validate_moves_def initial_vstate_def)
  have f: "\<not> validation_success initial_cash 0" if "1 / 100 \<le> initial_cash"
    using that by (simp add: validation_success_def)
  have e: "final_cash = initial_cash"
    if "extra_greedy_trading_recursive df initial_cash [] False b min_profit = (final_cash, [])"
    for b
    using extra_greedy_no_moves [of df initial_cash "[]" False b min_profit] that by simp
  have g: "final_cash = initial_cash"
    if "greedy_trading_recursive df initial_cash [] = (final_cash, [])"
    using e [of "Finite 0"] that by (simp add: extra_greedy_zero_budget)
  show ?thesis using v f e g by auto
qed

theorem C10_empty_move_list_witness:
  "validate_moves INITIAL_CASH [] dict_X = 0
   \<and> \<not> validation_success INITIAL_CASH (validate_moves INITIAL_CASH [] dict_X)
   \<and> greedy_trading_recursive [] INITIAL_CASH [] = (INITIAL_CASH, [])"
proof -
  have "greedy_trading_recursive [] INITIAL_CASH [] = (INITIAL_CASH, [])"
    by (subst greedy_unfold) (simp add: tradable_def candidates_def)
  then show ?thesis
    using C10_empty_move_list [where initial_cash = INITIAL_CASH and sd = dict_X and df = "[]"
        and final_cash = INITIAL_CASH]
    by (simp add: validation_success_def INITIAL_CASH_def)
qed

section \<open>The validator: errors\<close>

lemma validate_loop_append:
  "validate_loop initial_cash sd st (xs @ ys) =
     (case validate_loop initial_cash sd st xs of
        Inl e \<Rightarrow> Inl e
      | Inr st1 \<Rightarrow> validate_loop initial_cash sd st1 ys)"
  by (induction xs arbitrary: st) (auto split: sum.splits)

lemma validate_loop_error:
  assumes "validate_loop initial_cash sd st pre = Inr st1"
    and "validate_move initial_cash sd st1 move = Inl e"
  shows "validate_loop initial_cash sd st (pre @ move # rest) = Inl e"
  using assms by (simp add: validate_loop_append)

lemma validate_moves_error:
  assumes "validate_loop initial_cash sd initial_vstate pre = Inr st1"
    and "validate_move initial_cash sd st1 move = Inl e"
  shows "validate_moves initial_cash (pre @ move # rest) sd = - 1"
  using validate_loop_error [OF assms] by (simp add: validate_moves_def)

lemma validate_move_Inr:
  assumes "validate_move initial_cash sd st (date_str, action, stock, quantity_str) = Inr st2"
  obtains move_date quantity st1 row where
    "strptime date_str = Some move_date" "int_of_str quantity_str = Some quantity"
    "advance_date initial_cash st move_date = Inr st1"
    "find_row sd stock move_date = Inr row"
    "process_trade st1 row action quantity = Inr st2"
  using assms by (auto simp: validate_move_def split: option.splits sum.splits)

lemma validation_errors:
  assumes "validate_loop initial_cash sd initial_vstate pre = Inr st"
  shows "strptime date_str = None \<or> int_of_str quantity_str = None \<Longrightarrow>
           validate_moves initial_cash (pre @ (date_str, action, stock, quantity_str) # rest) sd = - 1"
    and "\<lbrakk>strptime date_str = Some move_date; int_of_str quantity_str = Some quantity;
           current_date st = Some cd; move_date < cd\<rbrakk> \<Longrightarrow>
           validate_moves initial_cash (pre @ (date_str, action, stock, quantity_str) # rest) sd = - 1"
    and "\<lbrakk>strptime date_str = Some move_date; int_of_str quantity_str = Some quantity;
           find_row sd stock move_date = Inl e\<rbrakk> \<Longrightarrow>
           validate_moves initial_cash (pre @ (date_str, action, stock, quantity_str) # rest) sd = - 1"
    and "\<lbrakk>strptime date_str = Some move_date; int_of_str quantity_str = Some quantity;
           find_row sd stock move_date = Inr row; quantity > Max_Quantity row\<rbrakk> \<Longrightarrow>
           validate_moves initial_cash (pre @ (date_str, action, stock, quantity_str) # rest) sd = - 1"
    and "\<lbrakk>strptime date_str = Some move_date; int_of_str quantity_str = Some quantity;
           find_row sd stock move_date = Inr row;
           advance_date initial_cash st move_date = Inr st1;
           action = ''buy-low'' \<and> daily_cash st1 < Low row * BUY_COST_FACTOR * of_int quantity
           \<or> action = ''buy-open'' \<and> daily_cash st1 < Open row * BUY_COST_FACTOR * of_int quantity\<rbrakk> \<Longrightarrow>
           validate_moves initial_cash (pre @ (date_str, action, stock, quantity_str) # rest) sd = - 1"
    and "\<lbrakk>strptime d1 = Some a1; strptime d2 = Some a2; a2 < a1\<rbrakk> \<Longrightarrow>
           validate_moves initial_cash [(d1, act1, s1, q1), (d2, act2, s2, q2)] sd = - 1"
proof -
  let ?m = "(date_str, action, stock, quantity_str)"
  have fatal: "validate_moves initial_cash (pre @ ?m # rest) sd = - 1"
    if "\<exists>e. validate_move initial_cash sd st ?m = Inl e"
    using that validate_moves_error [OF assms] by blast
  show "validate_moves initial_cash (pre @ ?m # rest) sd = - 1"
    if "strptime date_str = None \<or> int_of_str quantity_str = None"
    using that by (intro fatal) (auto simp: validate_move_def split: option.splits)
  show "validate_moves initial_cash (pre @ ?m # rest) sd = - 1"
    if "strptime date_str = Some move_date" "int_of_str quantity_str = Some quantity"
      "current_date st = Some cd" "move_date < cd"
    using that by (intro fatal) (auto simp: validate_move_def advance_date_def)
  show "validate_moves initial_cash (pre @ ?m # rest) sd = - 1"
    if "strptime date_str = Some move_date" "int_of_str quantity_str = Some quantity"
      "find_row sd stock move_date = Inl e"
    using that by (intro fatal) (auto simp: validate_move_def split: sum.splits)
  show "validate_moves initial_cash (pre @ ?m # rest) sd = - 1"
    if "strptime date_str = Some move_date" "int_of_str quantity_str = Some quantity"
      "find_row sd stock move_date = Inr row" "quantity > Max_Quantity row"
    using that by (intro fatal) (auto simp: validate_move_def process_trade_def split: sum.splits)
  show "validate_moves initial_cash (pre @ ?m # rest) sd = - 1"
    if "strptime date_str = Some move_date" "int_of_str quantity_str = Some quantity"
      "find_row sd stock move_date = Inr row"
      "advance_date initial_cash st move_date = Inr st1"
      "action = ''buy-low'' \<and> daily_cash st1 < Low row * BUY_COST_FACTOR * of_int quantity
       \<or> action = ''buy-open'' \<and> daily_cash st1 < Open row * BUY_COST_FACTOR * of_int quantity"
    using that by (intro fatal) (auto simp: validate_move_def process_trade_def Let_def)
  show "validate_moves initial_cash [(d1, act1, s1, q1), (d2, act2, s2, q2)] sd = - 1"
    if "strptime d1 = Some a1" "strptime d2 = Some a2" "a2 < a1"
  proof (cases "validate_move initial_cash sd initial_vstate (d1, act1, s1, q1)")
    case (Inl e)
    then show ?thesis by (simp add: validate_moves_def)
  next
    case (Inr st2)
    then obtain md st1 row quantity where
      md: "strptime d1 = Some md"
      and adv0: "advance_date initial_cash initial_vstate md = Inr st1"
      and tr: "process_trade st1 row act1 quantity = Inr st2"
      by (rule validate_move_Inr)
    from md that(1) have "md = a1" by simp
    with adv0 have adv: "advance_date initial_cash initial_vstate a1 = Inr st1" by simp
    from adv have "current_date st1 = Some a1"
      by (auto simp: advance_date_def initial_vstate_def)
    with tr have "current_date st2 = Some a1"
      by (auto simp: process_trade_def Let_def split: if_splits)
    with that have "\<exists>e. validate_move initial_cash sd st2 (d2, act2, s2, q2) = Inl e"
      by (auto simp: validate_move_def advance_date_def split: option.splits)
    with Inr show ?thesis by (auto simp: validate_moves_def)
  qed
qed


lemma find_row_Inl:
  "sd stock = None \<or> (\<exists>df_stock. sd stock = Some df_stock \<and> (\<forall>r \<in> set df_stock. Date r \<noteq> move_date))
   \<Longrightarrow> \<exists>e. find_row sd stock move_date = Inl e"
  by (auto simp: find_row_def filter_empty_conv split: list.splits)

text \<open>
  C8: after any prefix of moves that the loop has accepted, a move that fails one of the
  checks makes \<open>validate_moves\<close> return the sentinel, whatever moves follow it: a date or a
  quantity that does not parse, a date before the current one, no row for the stock on that
  day, a quantity above the row's \<open>Max_Quantity\<close>, a buy that costs more than the settled
  \<open>daily_cash\<close>. In particular two moves whose second date is before the first one's.
\<close>


theorem C8_validation_errors_are_fatal:
  "(validate_loop initial_cash sd initial_vstate pre = Inr st \<longrightarrow>
      (strptime date_str = None \<or> int_of_str quantity_str = None \<longrightarrow>
         validate_moves initial_cash (pre @ (date_str, action, stock, quantity_str) # rest) sd = - 1)
      \<and> (\<forall>move_date quantity.
           strptime date_str = Some move_date \<and> int_of_str quantity_str = Some quantity \<longrightarrow>
             ((\<exists>cd. current_date st = Some cd \<and> move_date < cd) \<longrightarrow>
                validate_moves initial_cash (pre @ (date_str, action, stock, quantity_str) # rest) sd = - 1)
             \<and> (sd stock = None
                  \<or> (\<exists>df_stock. sd stock = Some df_stock \<and> (\<forall>r \<in> set df_stock. Date r \<noteq> move_date)) \<longrightarrow>
                validate_moves initial_cash (pre @ (date_str, action, stock, quantity_str) # rest) sd = - 1)
             \<and> (\<forall>row. find_row sd stock move_date = Inr row \<longrightarrow>
                   (quantity > Max_Quantity row \<longrightarrow>
                      validate_moves initial_cash
                        (pre @ (date_str, action, stock, quantity_str) # rest) sd = - 1)
                   \<and> (\<forall>st1. advance_date initial_cash st move_date = Inr st1
                         \<and> (action = ''buy-low''
                              \<and> daily_cash st1 < Low row * BUY_COST_FACTOR * of_int quantity
                            \<or> action = ''buy-open''
                              \<and> daily_cash st1 < Open row * BUY_COST_FACTOR * of_int quantity) \<longrightarrow>
                      validate_moves initial_cash
                        (pre @ (date_str, action, stock, quantity_str) # rest) sd = - 1))))
   \<and> (\<forall>a1 a2. strptime date_a = Some a1 \<and> strptime date_b = Some a2 \<and> a2 < a1 \<longrightarrow>
         validate_moves initial_cash [(date_a, action_a, stock_a, quantity_a), (date_b, action_b, stock_b, quantity_b)] sd = - 1)"
proof (intro conjI impI allI)
  assume "validate_loop initial_cash sd initial_vstate pre = Inr st"
    and "strptime date_str = None \<or> int_of_str quantity_str = None"
  then show "validate_moves initial_cash (pre @ (date_str, action, stock, quantity_str) # rest) sd = - 1"
    by (rule validation_errors(1))
next
  fix move_date quantity
  assume "validate_loop initial_cash sd initial_vstate pre = Inr st"
    and "strptime date_str = Some move_date \<and> int_of_str quantity_str = Some quantity"
    and "\<exists>cd. current_date st = Some cd \<and> move_date < cd"
  then show "validate_moves initial_cash (pre @ (date_str, action, stock, quantity_str) # rest) sd = - 1"
    by (auto intro: validation_errors(2))
next
  fix move_date quantity
  assume pre: "validate_loop initial_cash sd initial_vstate pre = Inr st"
    and parse: "strptime date_str = Some move_date \<and> int_of_str quantity_str = Some quantity"
    and "sd stock = None
         \<or> (\<exists>df_stock. sd stock = Some df_stock \<and> (\<forall>r \<in> set df_stock. Date r \<noteq> move_date))"
  then obtain e where "find_row sd stock move_date = Inl e"
    using find_row_Inl by blast
  with pre parse
  show "validate_moves initial_cash (pre @ (date_str, action, stock, quantity_str) # rest) sd = - 1"
    by (auto intro: validation_errors(3))
next
  fix move_date quantity row
  assume "validate_loop initial_cash sd initial_vstate pre = Inr st"
    and "strptime date_str = Some move_date \<and> int_of_str quantity_str = Some quantity"
    and "find_row sd stock move_date = Inr row" and "quantity > Max_Quantity row"
  then show "validate_moves initial_cash (pre @ (date_str, action, stock, quantity_str) # rest) sd = - 1"
    by (auto intro: validation_errors(4))
next
  fix move_date quantity row st1
  assume "validate_loop initial_cash sd initial_vstate pre = Inr st"
    and "strptime date_str = Some move_date \<and> int_of_str quantity_str = Some quantity"
    and "find_row sd stock move_date = Inr row"
    and "advance_date initial_cash st move_date = Inr st1
         \<and> (action = ''buy-low'' \<and> daily_cash st1 < Low row * BUY_COST_FACTOR * of_int quantity
            \<or> action = ''buy-open'' \<and> daily_cash st1 < Open row * BUY_COST_FACTOR * of_int quantity)"
  then show "validate_moves initial_cash (pre @ (date_str, action, stock, quantity_str) # rest) sd = - 1"
    using validation_errors(5) [of initial_cash sd pre st date_str move_date quantity_str quantity
        stock row st1 action rest]
    by blast
next
  fix a1 a2
  assume "strptime date_a = Some a1 \<and> strptime date_b = Some a2 \<and> a2 < a1"
  then show "validate_moves initial_cash [(date_a, action_a, stock_a, quantity_a), (date_b, action_b, stock_b, quantity_b)] sd = - 1"
    using validation_errors(6) [of initial_cash sd "[]" initial_vstate] by auto
qed

lemma strptime_examples:
  "strptime ''2020-01-01'' = Some (2020, 1, 1)" "strptime ''2020-01-02'' = Some (2020, 1, 2)"
  by code_simp+

lemma int_of_str_examples: "int_of_str ''100'' = Some 100" "int_of_str ''1'' = Some 1"
  by code_simp+

lemma find_row_X: "find_row dict_X ''X'' (2020, 1, 1) = Inr bar_X"
  by (simp add: find_row_def dict_X_def bar_X_def)

theorem C8_validation_errors_witness:
  "validate_moves 1000 [(''2020-01-02'', ''buy-low'', ''X'', ''1''),
                        (''2020-01-01'', ''sell-close'', ''X'', ''1'')] dict_X = - 1
   \<and> validate_moves 1 [(''2020-01-01'', ''buy-low'', ''X'', ''100'')] dict_X = - 1"
proof
  have less: "(2020, 1, 1) < ((2020, 1, 2) :: date)" by simp
  from C8_validation_errors_are_fatal [where initial_cash = 1000 and sd = dict_X
      and date_a = "''2020-01-02''" and date_b = "''2020-01-01''"
      and action_a = "''buy-low''" and action_b = "''sell-close''" and stock_a = "''X''"
      and stock_b = "''X''" and quantity_a = "''1''" and quantity_b = "''1''"]
  have "\<forall>a1 a2. strptime ''2020-01-02'' = Some a1 \<and> strptime ''2020-01-01'' = Some a2 \<and> a2 < a1 \<longrightarrow>
      validate_moves 1000 [(''2020-01-02'', ''buy-low'', ''X'', ''1''),
                           (''2020-01-01'', ''sell-close'', ''X'', ''1'')] dict_X = - 1"
    by (rule conjunct2)
  with strptime_examples less
  show "validate_moves 1000 [(''2020-01-02'', ''buy-low'', ''X'', ''1''),
                             (''2020-01-01'', ''sell-close'', ''X'', ''1'')] dict_X = - 1"
    by blast
next
  let ?st1 = "\<lparr>current_date = Some (2020, 1, 1), daily_cash = 1, daily_revenue = 0\<rparr>"
  have pre: "validate_loop 1 dict_X initial_vstate [] = Inr initial_vstate" by simp
  have adv: "advance_date 1 initial_vstate (2020, 1, 1) = Inr ?st1"
    by (simp add: advance_date_def initial_vstate_def)
  have cost: "daily_cash ?st1 < Low bar_X * BUY_COST_FACTOR * of_int 100"
    by (simp add: bar_X_def BUY_COST_FACTOR_def COMMISSION_RATE_def)
  have "validate_moves 1 ([] @ (''2020-01-01'', ''buy-low'', ''X'', ''100'') # []) dict_X = - 1"
    using C8_validation_errors_are_fatal [where initial_cash = 1 and sd = dict_X and pre = "[]"
        and st = initial_vstate and date_str = "''2020-01-01''" and action = "''buy-low''"
        and stock = "''X''" and quantity_str = "''100''" and rest = "[]"]
      pre strptime_examples(1) int_of_str_examples(1) find_row_X adv cost
    by blast
  then show "validate_moves 1 [(''2020-01-01'', ''buy-low'', ''X'', ''100'')] dict_X = - 1"
    by simp
qed

section \<open>The validator: settlement\<close>

lemma validate_loop_split:
  assumes "validate_loop initial_cash sd st0 (pre @ move # rest) = Inr st_final"
  obtains st st2 where
    "validate_loop initial_cash sd st0 pre = Inr st"
    "validate_move initial_cash sd st move = Inr st2"
    "validate_loop initial_cash sd st2 rest = Inr st_final"
  using assms by (auto simp: validate_loop_append split: sum.splits)

lemma advance_date_Inr:
  assumes "advance_date initial_cash st move_date = Inr st1"
  shows "(current_date st = None \<longrightarrow>
            st1 = \<lparr>current_date = Some move_date, daily_cash = initial_cash, daily_revenue = 0\<rparr>)
       \<and> (\<forall>cd. current_date st = Some cd \<longrightarrow>
            cd \<le> move_date
            \<and> (cd < move_date \<longrightarrow>
                 st1 = \<lparr>current_date = Some move_date,
                        daily_cash = daily_cash st + daily_revenue st, daily_revenue = 0\<rparr>)
            \<and> (cd = move_date \<longrightarrow> st1 = st))"
  using assms by (auto simp: advance_date_def split: option.splits if_splits)

lemma process_trade_Inr:
  assumes "process_trade st1 row action quantity = Inr st2"
  shows "quantity \<le> Max_Quantity row
       \<and> (action = ''buy-low'' \<longrightarrow>
            Low row * BUY_COST_FACTOR * of_int quantity \<le> daily_cash st1
            \<and> st2 = st1\<lparr>daily_cash := daily_cash st1 - Low row * BUY_COST_FACTOR * of_int quantity\<rparr>)
       \<and> (action = ''buy-open'' \<longrightarrow>
            Open row * BUY_COST_FACTOR * of_int quantity \<le> daily_cash st1
            \<and> st2 = st1\<lparr>daily_cash := daily_cash st1 - Open row * BUY_COST_FACTOR * of_int quantity\<rparr>)
       \<and> (action = ''sell-close'' \<longrightarrow>
            st2 = st1\<lparr>daily_revenue :=
                        daily_revenue st1 + Close row * SELL_REVENUE_FACTOR * of_int quantity\<rparr>)
       \<and> (action = ''sell-high'' \<longrightarrow>
            st2 = st1\<lparr>daily_revenue :=
                        daily_revenue st1 + High row * SELL_REVENUE_FACTOR * of_int quantity\<rparr>)
       \<and> (action \<notin> {''buy-low'', ''buy-open'', ''sell-close'', ''sell-high''} \<longrightarrow> st2 = st1)"
  using assms by (auto simp: process_trade_def Let_def split: if_splits)

text \<open>
  C9: when the validator accepts a whole move list, its result is \<open>daily_cash + daily_revenue\<close>
  of the final state, and every move of the list was processed as follows. The revenue of
  earlier days is folded into \<open>daily_cash\<close> exactly when the date of the move is after
  \<open>current_date\<close> (on the same date nothing is folded; the first move starts from the initial
  cash). Then a buy is paid at once out of that \<open>daily_cash\<close>, which covers its cost
  \<open>price * BUY_COST_FACTOR * quantity\<close>, and leaves \<open>daily_revenue\<close> alone; a sell adds
  \<open>price * SELL_REVENUE_FACTOR * quantity\<close> to \<open>daily_revenue\<close> and leaves \<open>daily_cash\<close> alone.
\<close>

theorem C9_settlement_semantics:
  "validate_loop initial_cash sd initial_vstate (pre @ (date_str, action, stock, quantity_str) # rest)
     = Inr st_final \<longrightarrow>
   validate_moves initial_cash (pre @ (date_str, action, stock, quantity_str) # rest) sd
     = daily_cash st_final + daily_revenue st_final
   \<and> (\<exists>st st1 st2 move_date quantity row.
        validate_loop initial_cash sd initial_vstate pre = Inr st
        \<and> validate_loop initial_cash sd st2 rest = Inr st_final
        \<and> strptime date_str = Some move_date \<and> int_of_str quantity_str = Some quantity
        \<and> find_row sd stock move_date = Inr row
        \<and> (current_date st = None \<longrightarrow>
             st1 = \<lparr>current_date = Some move_date, daily_cash = initial_cash, daily_revenue = 0\<rparr>)
        \<and> (\<forall>cd. current_date st = Some cd \<longrightarrow>
             cd \<le> move_date
             \<and> (cd < move_date \<longrightarrow>
                  st1 = \<lparr>current_date = Some move_date,
                         daily_cash = daily_cash st + daily_revenue st, daily_revenue = 0\<rparr>)
             \<and> (cd = move_date \<longrightarrow> st1 = st))
        \<and> quantity \<le> Max_Quantity row
        \<and> (action = ''buy-low'' \<longrightarrow>
             Low row * BUY_COST_FACTOR * of_int quantity \<le> daily_cash st1
             \<and> st2 = st1\<lparr>daily_cash := daily_cash st1 - Low row * BUY_COST_FACTOR * of_int quantity\<rparr>)
        \<and> (action = ''buy-open'' \<longrightarrow>
             Open row * BUY_COST_FACTOR * of_int quantity \<le> daily_cash st1
             \<and> st2 = st1\<lparr>daily_cash := daily_cash st1 - Open row * BUY_COST_FACTOR * of_int quantity\<rparr>)
        \<and> (action = ''sell-close'' \<longrightarrow>
             st2 = st1\<lparr>daily_revenue :=
                         daily_revenue st1 + Close row * SELL_REVENUE_FACTOR * of_int quantity\<rparr>)
        \<and> (action = ''sell-high'' \<longrightarrow>
             st2 = st1\<lparr>daily_revenue :=
                         daily_revenue st1 + High row * SELL_REVENUE_FACTOR * of_int quantity\<rparr>)
        \<and> (action \<notin> {''buy-low'', ''buy-open'', ''sell-close'', ''sell-high''} \<longrightarrow> st2 = st1))"
proof
  let ?moves = "pre @ (date_str, action, stock, quantity_str) # rest"
  assume run: "validate_loop initial_cash sd initial_vstate ?moves = Inr st_final"
  then have result: "validate_moves initial_cash ?moves sd = daily_cash st_final + daily_revenue st_final"
    by (simp add: validate_moves_def)
  from run obtain st st2 where
    pre: "validate_loop initial_cash sd initial_vstate pre = Inr st"
    and move: "validate_move initial_cash sd st (date_str, action, stock, quantity_str) = Inr st2"
    and rest: "validate_loop initial_cash sd st2 rest = Inr st_final"
    by (rule validate_loop_split)
  from move obtain move_date quantity st1 row where
    parse: "strptime date_str = Some move_date" "int_of_str quantity_str = Some quantity"
    and adv: "advance_date initial_cash st move_date = Inr st1"
    and row: "find_row sd stock move_date = Inr row"
    and trade: "process_trade st1 row action quantity = Inr st2"
    by (rule validate_move_Inr)
  from result pre rest parse row advance_date_Inr [OF adv] process_trade_Inr [OF trade]
  show "validate_moves initial_cash ?moves sd = daily_cash st_final + daily_revenue st_final
   \<and> (\<exists>st st1 st2 move_date quantity row.
        validate_loop initial_cash sd initial_vstate pre = Inr st
        \<and> validate_loop initial_cash sd st2 rest = Inr st_final
        \<and> strptime date_str = Some move_date \<and> int_of_str quantity_str = Some quantity
        \<and> find_row sd stock move_date = Inr row
        \<and> (current_date st = None \<longrightarrow>
             st1 = \<lparr>current_date = Some move_date, daily_cash = initial_cash, daily_revenue = 0\<rparr>)
        \<and> (\<forall>cd. current_date st = Some cd \<longrightarrow>
             cd \<le> move_date
             \<and> (cd < move_date \<longrightarrow>
                  st1 = \<lparr>current_date = Some move_date,
                         daily_cash = daily_cash st + daily_revenue st, daily_revenue = 0\<rparr>)
             \<and> (cd = move_date \<longrightarrow> st1 = st))
        \<and> quantity \<le> Max_Quantity row
        \<and> (action = ''buy-low'' \<longrightarrow>
             Low row * BUY_COST_FACTOR * of_int quantity \<le> daily_cash st1
             \<and> st2 = st1\<lparr>daily_cash := daily_cash st1 - Low row * BUY_COST_FACTOR * of_int quantity\<rparr>)
        \<and> (action = ''buy-open'' \<longrightarrow>
             Open row * BUY_COST_FACTOR * of_int quantity \<le> daily_cash st1
             \<and> st2 = st1\<lparr>daily_cash := daily_cash st1 - Open row * BUY_COST_FACTOR * of_int quantity\<rparr>)
        \<and> (action = ''sell-close'' \<longrightarrow>
             st2 = st1\<lparr>daily_revenue :=
                         daily_revenue st1 + Close row * SELL_REVENUE_FACTOR * of_int quantity\<rparr>)
        \<and> (action = ''sell-high'' \<longrightarrow>
             st2 = st1\<lparr>daily_revenue :=
                         daily_revenue st1 + High row * SELL_REVENUE_FACTOR * of_int quantity\<rparr>)
        \<and> (action \<notin> {''buy-low'', ''buy-open'', ''sell-close'', ''sell-high''} \<longrightarrow> st2 = st1))"
    by - (elim conjE, (intro conjI exI; assumption))
qed

lemma validate_loop_X:
  "validate_loop 1000 dict_X initial_vstate
     ([(''2020-01-01'', ''buy-low'', ''X'', ''100'')] @ (''2020-01-01'', ''sell-close'', ''X'', ''100'') # [])
   = Inr \<lparr>current_date = Some (2020, 1, 1), daily_cash = 91, daily_revenue = 1089\<rparr>"
  by code_simp

theorem C9_settlement_semantics_witness:
  "validate_moves 1000 [(''2020-01-01'', ''buy-low'', ''X'', ''100''),
                        (''2020-01-01'', ''sell-close'', ''X'', ''100'')] dict_X = 91 + 1089"
  using C9_settlement_semantics [where initial_cash = 1000 and sd = dict_X
      and pre = "[(''2020-01-01'', ''buy-low'', ''X'', ''100'')]"
      and date_str = "''2020-01-01''" and action = "''sell-close''" and stock = "''X''"
      and quantity_str = "''100''" and rest = "[]"
      and st_final = "\<lparr>current_date = Some (2020, 1, 1), daily_cash = 91, daily_revenue = 1089\<rparr>",
      THEN mp, OF validate_loop_X, THEN conjunct1]
  by simp

section \<open>Dates and quantities as text\<close>




















section \<open>The selected trade on clean rows\<close>

lemma factors_positive: "0 < BUY_COST_FACTOR" "0 < SELL_REVENUE_FACTOR"
  by (simp_all add: BUY_COST_FACTOR_def SELL_REVENUE_FACTOR_def COMMISSION_RATE_def)

lemma clean_bar_Max_Quantity: "clean_bar r \<Longrightarrow> 0 \<le> Max_Quantity r"
  by (simp add: clean_bar_def max_quantity_def py_int_def VOLUME_CONSTRAINT_FACTOR_def)

lemma floor_min_of_int: "\<lfloor>min (of_int m) (x::real)\<rfloor> = min m \<lfloor>x\<rfloor>"
  by (simp add: min_def le_floor_iff)

lemma nth_profit_open:
  "i < length df \<Longrightarrow>
   profit_open cash df ! i =
     min (of_int (Max_Quantity (df ! i))) (py_floordiv cash (Open (df ! i) * BUY_COST_FACTOR))
       * (High (df ! i) * SELL_REVENUE_FACTOR - Open (df ! i) * BUY_COST_FACTOR)"
  by (simp add: profit_open_def quantity_open_def)

lemma nth_profit_low:
  "i < length df \<Longrightarrow>
   profit_low cash df ! i =
     min (of_int (Max_Quantity (df ! i))) (py_floordiv cash (Low (df ! i) * BUY_COST_FACTOR))
       * (Close (df ! i) * SELL_REVENUE_FACTOR - Low (df ! i) * BUY_COST_FACTOR)"
  by (simp add: profit_low_def quantity_low_def)

lemma nth_max_profit_per_trade:
  "i < length df \<Longrightarrow>
   max_profit_per_trade cash df ! i = max (profit_open cash df ! i) (profit_low cash df ! i)"
  by (simp add: max_profit_per_trade_def profit_open_def profit_low_def quantity_open_def
      quantity_low_def)

text \<open>
  The quantity the code executes, \<open>int(min(Max_Quantity, cash / price))\<close>, is the quantity of
  the profit column, \<open>min(Max_Quantity, cash // price)\<close>, when neither is negative.
\<close>

lemma executed_quantity:
  assumes "0 \<le> m" "0 < p" "0 \<le> cash"
  shows "of_int (py_int (min (of_int m) (cash / p))) = min (of_int m) (py_floordiv cash p)"
proof -
  have "0 \<le> min (real_of_int m) (cash / p)" using assms by simp
  then have "py_int (min (of_int m) (cash / p)) = min m \<lfloor>cash / p\<rfloor>"
    by (simp add: py_int_def floor_min_of_int)
  then show ?thesis by (simp add: py_floordiv_def)
qed

lemma selected_trade:
  assumes clean: "\<forall>r \<in> set df. clean_bar r" and tr: "tradable cash df"
  shows "0 < trade_quantity cash df"
    and "trade_quantity cash df \<le> Max_Quantity (best_row cash df)"
    and "0 \<le> trade_cost cash df" and "trade_cost cash df \<le> cash"
    and "0 \<le> trade_revenue cash df"
    and "trade_revenue cash df - trade_cost cash df = best_profit cash df"
proof -
  let ?c = "candidates cash df"
  let ?i = "best_profit_idx cash ?c"
  let ?r = "best_row cash df"
  let ?q = "trade_quantity cash df"
  from tr have ne: "?c \<noteq> []" and pos: "0 < best_profit cash df" by (simp_all add: tradable_def)
  have i: "?i < length ?c" using ne by (rule best_profit_idx_less)
  have r: "?r = ?c ! ?i" by (simp add: best_row_def)
  have "?r \<in> set df" using tr by (rule best_row_in_frame)
  with clean have cb: "clean_bar ?r" by blast
  then have prices: "0 < Open ?r" "0 < Low ?r" "0 < High ?r" "0 < Close ?r"
    by (simp_all add: clean_bar_def)
  have mq: "0 \<le> Max_Quantity ?r" using cb by (rule clean_bar_Max_Quantity)
  have "affordable cash ?r" using tr by (rule best_row_affordable)
  then have cash: "0 < cash"
    using prices factors_positive
    by (auto simp: affordable_def dest: mult_pos_pos [of "Open ?r" BUY_COST_FACTOR]
        mult_pos_pos [of "Low ?r" BUY_COST_FACTOR])
  have bp: "0 < buy_price cash df" and sp: "0 < sell_price cash df"
    using prices by (simp_all add: buy_price_def sell_price_def)
  then have bpf: "0 < buy_price cash df * BUY_COST_FACTOR"
    using factors_positive by simp
  have q: "real_of_int ?q = min (of_int (Max_Quantity ?r))
      (py_floordiv cash (buy_price cash df * BUY_COST_FACTOR))"
    unfolding trade_quantity_def using mq bpf cash by (intro executed_quantity) simp_all
  have best: "best_profit cash df
      = real_of_int ?q * (sell_price cash df * SELL_REVENUE_FACTOR
          - buy_price cash df * BUY_COST_FACTOR)"
  proof (cases "use_open cash df")
    case True
    then have "best_profit cash df = profit_open cash ?c ! ?i"
      using i by (simp add: best_profit_def nth_max_profit_per_trade use_open_def)
    with True i show ?thesis
      by (simp add: q nth_profit_open buy_price_def sell_price_def r)
  next
    case False
    then have "best_profit cash df = profit_low cash ?c ! ?i"
      using i by (simp add: best_profit_def nth_max_profit_per_trade use_open_def)
    with False i show ?thesis
      by (simp add: q nth_profit_low buy_price_def sell_price_def r)
  qed
  show profit: "trade_revenue cash df - trade_cost cash df = best_profit cash df"
    by (simp add: best trade_revenue_def trade_cost_def algebra_simps)
  have "0 \<le> py_floordiv cash (buy_price cash df * BUY_COST_FACTOR)"
    using cash bpf by (simp add: py_floordiv_def)
  with mq have q0: "0 \<le> real_of_int ?q" by (simp add: q)
  with pos best show qpos: "0 < ?q"
    by (cases "?q = 0") auto
  show "?q \<le> Max_Quantity ?r"
    using q by (metis min.cobounded1 of_int_le_iff)
  show "0 \<le> trade_cost cash df"
    using q0 bpf by (simp add: trade_cost_def mult.assoc)
  have "real_of_int ?q \<le> cash / (buy_price cash df * BUY_COST_FACTOR)"
    by (simp add: q py_floordiv_def min.coboundedI2)
  then have "real_of_int ?q * (buy_price cash df * BUY_COST_FACTOR) \<le> cash"
    using bpf by (simp add: pos_le_divide_eq)
  then show "trade_cost cash df \<le> cash" by (simp add: trade_cost_def mult.assoc)
  show "0 \<le> trade_revenue cash df"
    using q0 sp factors_positive by (simp add: trade_revenue_def)
qed

section \<open>The volume limit\<close>

lemma within_volume_mono: "set df' \<subseteq> set df \<Longrightarrow> within_volume df' m \<Longrightarrow> within_volume df m"
  by (auto simp: within_volume_def)

lemma trade_moves_within_volume:
  assumes "\<forall>r \<in> set df. clean_bar r" "tradable cash df"
  shows "\<forall>m \<in> set (trade_moves cash df). within_volume df m"
proof -
  have "best_row cash df \<in> set df" using assms(2) by (rule best_row_in_frame)
  with selected_trade(1,2) [OF assms] show ?thesis
    unfolding within_volume_def trade_moves_def by auto
qed

lemma extra_greedy_within_volume:
  assumes "\<forall>r \<in> set df. clean_bar r"
  shows "\<exists>new. snd (extra_greedy_trading_recursive df cash moves past max_past_pairs min_profit)
             = moves @ new
     \<and> (\<forall>m \<in> set new. within_volume df m)"
  using assms
proof (induction "length df" arbitrary: df cash moves past max_past_pairs min_profit
    rule: less_induct)
  case less
  show ?case
  proof (cases "executes df cash moves past max_past_pairs min_profit")
    case False
    then show ?thesis by (simp add: extra_greedy_stop)
  next
    case True
    then have tr: "tradable cash df" by (simp add: executes_def)
    let ?sub = "extra_greedy_trading_recursive (earlier_rows cash df)
        (cash - trade_cost cash df) [] True (minus_pyfloat max_past_pairs 1) min_profit"
    let ?moves1 = "moves @ snd ?sub @ trade_moves cash df"
    let ?budget = "if past then minus_pyfloat max_past_pairs (int (length ?moves1 div 2))
        else max_past_pairs"
    let ?rest = "extra_greedy_trading_recursive (later_rows cash df)
        (fst ?sub + trade_revenue cash df) ?moves1 past ?budget min_profit"
    have eq: "extra_greedy_trading_recursive df cash moves past max_past_pairs min_profit = ?rest"
      using True by (simp add: extra_greedy_step Let_def)
    have sub_e: "set (earlier_rows cash df) \<subseteq> set df" using set_earlier_rows by blast
    have sub_l: "set (later_rows cash df) \<subseteq> set df" using set_later_rows by blast
    from less.hyps [OF earlier_rows_shorter [OF tr], of "cash - trade_cost cash df" "[]" True
        "minus_pyfloat max_past_pairs 1" min_profit] less.prems sub_e
    obtain new1 where n1: "snd ?sub = new1" "\<forall>m \<in> set new1. within_volume (earlier_rows cash df) m"
      by auto
    from less.hyps [OF later_rows_shorter [OF tr], of "fst ?sub + trade_revenue cash df" ?moves1
        past ?budget min_profit] less.prems sub_l
    obtain new2 where n2: "snd ?rest = ?moves1 @ new2"
        "\<forall>m \<in> set new2. within_volume (later_rows cash df) m"
      by blast
    have "snd (extra_greedy_trading_recursive df cash moves past max_past_pairs min_profit)
        = moves @ (new1 @ trade_moves cash df @ new2)"
      using eq n1(1) n2(1) by simp
    moreover have "\<forall>m \<in> set (new1 @ trade_moves cash df @ new2). within_volume df m"
      using n1(2) n2(2) trade_moves_within_volume [OF less.prems tr]
        within_volume_mono [OF sub_e] within_volume_mono [OF sub_l]
      by auto
    ultimately show ?thesis by blast
  qed
qed

lemma validate_rejects_volume:
  assumes "(date_str, action, stock, quantity_str) \<in> set moves"
    and "strptime date_str = Some move_date" and "int_of_str quantity_str = Some quantity"
    and "find_row sd stock move_date = Inr row" and "quantity > Max_Quantity row"
  shows "validate_moves initial_cash moves sd = - 1"
proof -
  from assms(1) obtain pre rest where
    moves: "moves = pre @ (date_str, action, stock, quantity_str) # rest"
    by (auto simp: in_set_conv_decomp)
  show ?thesis
  proof (cases "validate_loop initial_cash sd initial_vstate pre")
    case (Inl e)
    then show ?thesis by (simp add: moves validate_moves_def validate_loop_append)
  next
    case (Inr st)
    from validation_errors(4) [OF Inr assms(2-5)] show ?thesis by (simp add: moves)
  qed
qed

text \<open>
  C3: on clean rows, where \<open>Max_Quantity\<close> is the floor of the volume fraction times the volume,
  every move either strategy emits trades a positive whole quantity of a row of the frame
  that does not exceed that row's \<open>Max_Quantity\<close>; and the validator returns the sentinel
  for every list holding a move whose quantity exceeds the \<open>Max_Quantity\<close> of its row.
\<close>

theorem C3_quantity_within_volume:
  "((\<forall>r \<in> set df. clean_bar r) \<longrightarrow>
      (\<forall>r \<in> set df. Max_Quantity r = \<lfloor>VOLUME_CONSTRAINT_FACTOR * of_int (Volume r)\<rfloor>)
      \<and> (\<forall>m \<in> set (snd (greedy_trading_recursive df cash [])). within_volume df m)
      \<and> (\<forall>m \<in> set (snd (extra_greedy_trading_recursive df cash [] False max_past_pairs
                             min_profit)). within_volume df m))
   \<and> ((date_str, action, stock, quantity_str) \<in> set moves
        \<and> strptime date_str = Some move_date \<and> int_of_str quantity_str = Some quantity
        \<and> find_row sd stock move_date = Inr row \<and> quantity > Max_Quantity row \<longrightarrow>
      validate_moves initial_cash moves sd = - 1)"
proof (intro conjI impI)
  assume clean: "\<forall>r \<in> set df. clean_bar r"
  show "\<forall>r \<in> set df. Max_Quantity r = \<lfloor>VOLUME_CONSTRAINT_FACTOR * of_int (Volume r)\<rfloor>"
  proof
    fix r assume "r \<in> set df"
    with clean have "clean_bar r" by blast
    then show "Max_Quantity r = \<lfloor>VOLUME_CONSTRAINT_FACTOR * of_int (Volume r)\<rfloor>"
      by (simp add: clean_bar_def max_quantity_def py_int_def VOLUME_CONSTRAINT_FACTOR_def)
  qed
  show e: "\<forall>m \<in> set (snd (extra_greedy_trading_recursive df cash [] False b min_profit)).
      within_volume df m" for b
    using extra_greedy_within_volume [OF clean, of cash "[]" False b min_profit] by auto
  show "\<forall>m \<in> set (snd (greedy_trading_recursive df cash [])). within_volume df m"
    using e [of "Finite 0"] by (simp add: extra_greedy_zero_budget)
next
  assume "(date_str, action, stock, quantity_str) \<in> set moves
      \<and> strptime date_str = Some move_date \<and> int_of_str quantity_str = Some quantity
      \<and> find_row sd stock move_date = Inr row \<and> quantity > Max_Quantity row"
  then show "validate_moves initial_cash moves sd = - 1"
    using validate_rejects_volume by blast
qed

lemma clean_bar_X: "clean_bar bar_X"
  by (simp add: clean_bar_def bar_X_def valid_date_def days_in_month_def)

lemma int_of_str_101: "int_of_str ''101'' = Some 101"
  by code_simp

theorem C3_quantity_within_volume_witness:
  "within_volume [bar_X] (''2020-01-01'', ''buy-low'', ''X'', ''100'')
   \<and> within_volume [bar_X] (''2020-01-01'', ''sell-close'', ''X'', ''100'')
   \<and> validate_moves 1000 [(''2020-01-01'', ''buy-low'', ''X'', ''101'')] dict_X = - 1"
proof -
  have mq: "Max_Quantity bar_X = 100"
    by (simp add: bar_X_def max_quantity_def py_int_def VOLUME_CONSTRAINT_FACTOR_def)
  have clean: "\<forall>r \<in> set [bar_X]. clean_bar r" by (simp add: clean_bar_X)
  note c3 = C3_quantity_within_volume [where df = "[bar_X]" and cash = 1000
      and moves = "[(''2020-01-01'', ''buy-low'', ''X'', ''101'')]" and date_str = "''2020-01-01''"
      and action = "''buy-low''" and stock = "''X''" and quantity_str = "''101''"
      and move_date = "(2020, 1, 1)" and quantity = 101 and sd = dict_X and row = bar_X
      and initial_cash = 1000]
  from c3 clean
  have "\<forall>m \<in> set (snd (greedy_trading_recursive [bar_X] 1000 [])). within_volume [bar_X] m"
    by blast
  then have a: "within_volume [bar_X] (''2020-01-01'', ''buy-low'', ''X'', ''100'')"
    and b: "within_volume [bar_X] (''2020-01-01'', ''sell-close'', ''X'', ''100'')"
    by (simp_all add: greedy_bar_X)
  from c3 strptime_examples(1) int_of_str_101 find_row_X mq
  have "validate_moves 1000 [(''2020-01-01'', ''buy-low'', ''X'', ''101'')] dict_X = - 1"
    by simp
  with a b show ?thesis by simp
qed

section \<open>The simple greedy strategy is monotone\<close>







section \<open>Replaying a trade\<close>



section \<open>The replay invariant\<close>



section \<open>The strategies against the validator\<close>







end
